theory Spec2Isabelle
  imports Main "HOL-Library.Multiset"
begin

section \<open>Go values used by main.go\<close>

subsection \<open>Strings\<close>

text \<open>
  A Go string is a sequence of bytes, here a \<open>string\<close> (a list of 8-bit characters).
  The functions of package \<open>strings\<close> that main.go calls are written out below with
  the results the Go documentation gives them.
\<close>

definition strings_HasPrefix :: "string \<Rightarrow> string \<Rightarrow> bool" where
  "strings_HasPrefix s pre = (take (length pre) s = pre)"

definition strings_HasSuffix :: "string \<Rightarrow> string \<Rightarrow> bool" where
  "strings_HasSuffix s suf =
     (length suf \<le> length s \<and> drop (length s - length suf) s = suf)"


text \<open>\<open>strings.Index\<close>: the byte offset of the first occurrence, \<open>None\<close> for Go's \<open>-1\<close>.\<close>

fun strings_Index :: "string \<Rightarrow> string \<Rightarrow> nat option" where
  "strings_Index [] sep = (if sep = [] then Some 0 else None)"
| "strings_Index (c # cs) sep =
     (if strings_HasPrefix (c # cs) sep then Some 0
      else map_option Suc (strings_Index cs sep))"

text \<open>
  \<open>strings.Cut(s, sep)\<close> slices \<open>s\<close> around the first occurrence of \<open>sep\<close> and returns
  \<open>(before, after, found)\<close>; when \<open>sep\<close> does not occur it returns \<open>(s, "", false)\<close>.
\<close>

definition strings_Cut :: "string \<Rightarrow> string \<Rightarrow> string \<times> string \<times> bool" where
  "strings_Cut s sep =
     (case strings_Index s sep of
        Some i \<Rightarrow> (take i s, drop (i + length sep) s, True)
      | None \<Rightarrow> (s, [], False))"

text \<open>\<open>strings.LastIndexByte\<close>: the offset of the last occurrence of a byte, or \<open>-1\<close>.\<close>

definition strings_LastIndexByte :: "string \<Rightarrow> char \<Rightarrow> int" where
  "strings_LastIndexByte s c =
     (if c \<in> set s
      then int (length s) - 1 - int (length (takeWhile (\<lambda>x. x \<noteq> c) (rev s)))
      else - 1)"

text \<open>
  \<open>strings.Split(s, sep)\<close> for a separator of one byte, the only way main.go calls it
  (on a newline and on a tab): the pieces between the separators, never an empty list.
\<close>

fun strings_Split :: "string \<Rightarrow> char \<Rightarrow> string list" where
  "strings_Split [] c = [[]]"
| "strings_Split (x # xs) c =
     (let r = strings_Split xs c
      in if x = c then [] # r
         else (case r of [] \<Rightarrow> [[x]] | h # t \<Rightarrow> (x # h) # t))"




text \<open>The verb \<open>'%s'\<close> of the error messages: the argument between single quotes.\<close>

definition quoted :: "string \<Rightarrow> string" where
  "quoted s = [CHR 0x27] @ s @ [CHR 0x27]"

subsection \<open>Errors\<close>

text \<open>
  A Go \<open>error\<close> is an interface value. The values main.go makes or tests are:
  \<open>HandledError{}\<close> (the only value of its type); the error of \<open>fmt.Errorf\<close> without
  \<open>%w\<close>, which carries its message only; and the error of \<open>fmt.Errorf\<close> with \<open>%w\<close>, which
  carries its message and the error it wraps. Errors that come from the operating
  system, from git or from a parser are values of this type as well.
\<close>

datatype error = HandledError | errorString string | wrapError string error

definition ErrHandled :: error where
  "ErrHandled = HandledError"

fun Error :: "error \<Rightarrow> string" where
  "Error HandledError = ''Program failed and displayed the error to the user''"
| "Error (errorString msg) = msg"
| "Error (wrapError msg err) = msg"

text \<open>\<open>fmt.Errorf(prefix + "%w", err)\<close>.\<close>

definition Errorf_w :: "string \<Rightarrow> error \<Rightarrow> error" where
  "Errorf_w prefix err = wrapError (prefix @ Error err) err"

text \<open>
  \<open>errors.Is(err, target)\<close>: true when \<open>err\<close> equals the target or wraps, at any depth,
  an error that does. None of the error types here has an \<open>Is\<close> method.
\<close>

fun errors_Is :: "error \<Rightarrow> error \<Rightarrow> bool" where
  "errors_Is (wrapError msg err) target =
     (wrapError msg err = target \<or> errors_Is err target)"
| "errors_Is err target = (err = target)"

text \<open>
  A call either returns or panics (a failed \<open>contract.Assert\<close>, a nil dereference).
\<close>

datatype 'a go_result = Returns 'a | Panics

section \<open>RepoKind\<close>

text \<open>
  \<open>type RepoKind string\<close> with four named constants. The type is a string type, so
  a \<open>RepoKind\<close> can hold any string; the methods fall to their \<open>default\<close> branch on
  every string that is not one of the constants they name.
\<close>

type_synonym RepoKind = string

definition Plain :: RepoKind where
  "Plain = ''plain''"

definition Forked :: RepoKind where
  "Forked = ''forked''"

definition Shimmed :: RepoKind where
  "Shimmed = ''shimmed''"

definition ForkedAndShimmed :: RepoKind where
  "ForkedAndShimmed = ''forked & shimmed''"

text \<open>The method \<open>func (rk RepoKind) Shimmed() RepoKind\<close>.\<close>

definition RepoKind_Shimmed :: "RepoKind \<Rightarrow> RepoKind" where
  "RepoKind_Shimmed rk =
     (if rk = Plain then Shimmed
      else if rk = Forked then ForkedAndShimmed
      else rk)"

definition IsForked :: "RepoKind \<Rightarrow> bool" where
  "IsForked rk = (if rk = Forked \<or> rk = ForkedAndShimmed then True else False)"

definition IsShimmed :: "RepoKind \<Rightarrow> bool" where
  "IsShimmed rk = (if rk = Shimmed \<or> rk = ForkedAndShimmed then True else False)"

section \<open>The version suffix\<close>

text \<open>
  \<open>var versionSuffix = regexp.MustCompile("/v[2-9]+$")\<close>. A match is a slash, the
  letter v, and one or more characters of the class \<open>[2-9]\<close>, up to the end of the
  text (\<open>$\<close> without the flag \<open>m\<close>). \<open>versionSuffix_here s\<close> says that the whole of
  \<open>s\<close> is such a match; \<open>FindStringIndex\<close> returns the start of the leftmost match.
\<close>

definition class_2_9 :: "char \<Rightarrow> bool" where
  "class_2_9 c = (c \<in> set ''23456789'')"

definition versionSuffix_here :: "string \<Rightarrow> bool" where
  "versionSuffix_here s =
     (case s of
        c1 # c2 # ds \<Rightarrow> c1 = CHR ''/'' \<and> c2 = CHR ''v'' \<and> ds \<noteq> [] \<and> list_all class_2_9 ds
      | _ \<Rightarrow> False)"

fun versionSuffix_FindStringIndex :: "string \<Rightarrow> nat option" where
  "versionSuffix_FindStringIndex [] = None"
| "versionSuffix_FindStringIndex (c # cs) =
     (if versionSuffix_here (c # cs) then Some 0
      else map_option Suc (versionSuffix_FindStringIndex cs))"

definition versionSuffix_MatchString :: "string \<Rightarrow> bool" where
  "versionSuffix_MatchString s = (versionSuffix_FindStringIndex s \<noteq> None)"

definition modPathWithoutVersion :: "string \<Rightarrow> string" where
  "modPathWithoutVersion path =
     (case versionSuffix_FindStringIndex path of
        Some i \<Rightarrow> take i path
      | None \<Rightarrow> path)"

section \<open>Manifests and the classifier\<close>

text \<open>
  The parts of \<open>module.Version\<close>, \<open>modfile.Require\<close>, \<open>modfile.Replace\<close> and
  \<open>modfile.File\<close> that main.go reads, and its own \<open>GoMod\<close>. The pointer
  \<open>Fork *modfile.Replace\<close> is an option: \<open>None\<close> is nil.
\<close>

record module_Version =
  Path :: string
  Version :: string

record modfile_Require =
  Mod :: module_Version
  Indirect :: bool

record modfile_Replace =
  Old :: module_Version
  New :: module_Version

record modfile_File =
  Require :: "modfile_Require list"
  Replace :: "modfile_Replace list"

record GoMod =
  Kind :: RepoKind
  Upstream :: module_Version
  Fork :: "modfile_Replace option"

text \<open>
  What \<open>repoKind\<close> asks of its surroundings: \<open>filepath.Join\<close>, \<open>os.ReadFile\<close>,
  \<open>os.Stat\<close> (its \<open>FileInfo\<close> is dropped by the caller, so only the error is kept:
  \<open>None\<close> is success), \<open>os.IsNotExist\<close> and \<open>modfile.Parse\<close>.
\<close>

record world =
  filepath_Join :: "string list \<Rightarrow> string"
  os_ReadFile :: "string \<Rightarrow> error + string"
  os_Stat :: "string \<Rightarrow> error option"
  os_IsNotExist :: "error \<Rightarrow> bool"
  modfile_Parse :: "string \<Rightarrow> string \<Rightarrow> error + modfile_File"

text \<open>
  The closure \<open>getUpstream\<close> of \<open>repoKind\<close> (lines 369-378); it captures
  \<open>tfProviderRepoName\<close>. The loop returns at the first entry that matches.
\<close>

fun getUpstream_loop :: "string \<Rightarrow> modfile_Require list \<Rightarrow> error + modfile_Require" where
  "getUpstream_loop tfProviderRepoName [] =
     Inl (errorString (''could not find upstream '' @ quoted tfProviderRepoName @ '' in go.mod''))"
| "getUpstream_loop tfProviderRepoName (m # rest) =
     (let pathWithoutVersion = modPathWithoutVersion (Path (Mod m))
      in if strings_HasSuffix pathWithoutVersion tfProviderRepoName then Inr m
         else getUpstream_loop tfProviderRepoName rest)"

definition getUpstream :: "string \<Rightarrow> modfile_File \<Rightarrow> error + modfile_Require" where
  "getUpstream tfProviderRepoName file = getUpstream_loop tfProviderRepoName (Require file)"

text \<open>
  Lines 380-407 of \<open>repoKind\<close>: the shim probe and the choice of the manifest that
  \<open>getUpstream\<close> runs on. The result is \<open>upstream\<close> and the flag \<open>shimmed\<close>.
\<close>

definition repoKind_upstream ::
  "world \<Rightarrow> string \<Rightarrow> string \<Rightarrow> modfile_File \<Rightarrow> error + (modfile_Require \<times> bool)" where
  "repoKind_upstream w path tfProviderRepoName goMod =
     (let shimDir = filepath_Join w [path, ''provider'', ''shim'']
      in case os_Stat w shimDir of
           None \<Rightarrow>
             (let modPath = filepath_Join w [shimDir, ''go.mod'']
              in case os_ReadFile w modPath of
                   Inl err \<Rightarrow> Inl err
                 | Inr data \<Rightarrow>
                     (case modfile_Parse w modPath data of
                        Inl err \<Rightarrow> Inl (Errorf_w ''shim/go.mod: '' err)
                      | Inr shimMod \<Rightarrow>
                          (case getUpstream tfProviderRepoName shimMod of
                             Inl err \<Rightarrow> Inl (Errorf_w ''shim/go.mod: '' err)
                           | Inr upstream \<Rightarrow> Inr (upstream, True))))
         | Some err \<Rightarrow>
             if \<not> os_IsNotExist w err
             then Inl (Errorf_w (''unexpected error reading '' @ quoted shimDir @ '': '') err)
             else (case getUpstream tfProviderRepoName goMod of
                     Inl err \<Rightarrow> Inl (Errorf_w ''go.mod: '' err)
                   | Inr upstream \<Rightarrow> Inr (upstream, False)))"

text \<open>
  Lines 411-429: the loop over the replace directives of the outer manifest. It
  skips the directives that do not replace the upstream, and at the first one that does
  it either fails or takes the directive as the fork and stops.
\<close>

fun repoKind_fork ::
  "string \<Rightarrow> modfile_Require \<Rightarrow> modfile_Replace list \<Rightarrow> error + modfile_Replace option" where
  "repoKind_fork tfProviderRepoName upstream [] = Inr None"
| "repoKind_fork tfProviderRepoName upstream (replace # rest) =
     (if Path (Old replace) \<noteq> Path (Mod upstream)
      then repoKind_fork tfProviderRepoName upstream rest
      else (case strings_Cut (Path (New replace)) (''/'' @ tfProviderRepoName) of
              (before, after, found) \<Rightarrow>
                if \<not> found \<or> (after \<noteq> [] \<and> \<not> versionSuffix_MatchString after)
                then Inl (errorString
                       (''go.mod: replace has incorrect repo: '' @ quoted (Path (New replace))))
                else (let repoOrgSeperator = strings_LastIndexByte before (CHR ''/'');
                          org = drop (nat (repoOrgSeperator + 1)) before
                      in if org \<noteq> ''pulumi''
                         then Inl (errorString
                                (''go.mod: tf fork maintained by '' @ quoted org @
                                 '': expected '' @ quoted ''pulumi''))
                         else Inr (Some replace))))"

text \<open>
  Lines 367-446: \<open>repoKind\<close> once the outer manifest is parsed. The assertion
  \<open>upstream != nil\<close> of line 409 cannot fail: \<open>getUpstream\<close> returns an entry whenever it
  returns no error.
\<close>

definition repoKind_parsed ::
  "world \<Rightarrow> string \<Rightarrow> string \<Rightarrow> modfile_File \<Rightarrow> error + GoMod" where
  "repoKind_parsed w path providerName goMod =
     (let tfProviderRepoName = ''terraform-provider-'' @ providerName
      in case repoKind_upstream w path tfProviderRepoName goMod of
           Inl err \<Rightarrow> Inl err
         | Inr (upstream, shimmed) \<Rightarrow>
             (case repoKind_fork tfProviderRepoName upstream (Replace goMod) of
                Inl err \<Rightarrow> Inl err
              | Inr fork \<Rightarrow>
                  (let out = \<lparr>Kind = [], Upstream = Mod upstream, Fork = fork\<rparr>;
                       out1 = (if fork = None then out\<lparr>Kind := Plain\<rparr>
                               else out\<lparr>Kind := Forked\<rparr>);
                       out2 = (if shimmed then out1\<lparr>Kind := RepoKind_Shimmed (Kind out1)\<rparr>
                               else out1)
                   in Inr out2)))"

definition repoKind :: "world \<Rightarrow> string \<Rightarrow> string \<Rightarrow> error + GoMod" where
  "repoKind w path providerName =
     (let file = filepath_Join w [path, ''provider'', ''go.mod'']
      in case os_ReadFile w file of
           Inl err \<Rightarrow> Inl (Errorf_w ''go.mod: '' err)
         | Inr data \<Rightarrow>
             (case modfile_Parse w file data of
                Inl err \<Rightarrow> Inl (Errorf_w ''go.mod: '' err)
              | Inr goMod \<Rightarrow> repoKind_parsed w path providerName goMod))"

section \<open>The version resolver\<close>

text \<open>
  \<open>getExpectedTarget\<close> runs \<open>gh issue list\<close>, decodes the titles with
  \<open>json.Unmarshal\<close>, parses versions with \<open>semver.NewVersion\<close> (package
  Masterminds/semver), sorts them with \<open>sort.Slice\<close> and compares them with
  \<open>Version.LessThan\<close>. These five are parameters: \<open>'v\<close> is the type of a parsed
  version, \<open>semver_NewVersion\<close> gives \<open>None\<close> where Go returns an error, and
  \<open>sort_Slice lt vs\<close> is the slice after \<open>sort.Slice\<close> has sorted \<open>vs\<close> with the
  comparison \<open>lt\<close> on its elements.
\<close>

record 'v resolver =
  gh_Run :: "string list \<Rightarrow> error + string"
  json_Unmarshal :: "string \<Rightarrow> error + string list"
  semver_NewVersion :: "string \<Rightarrow> 'v option"
  semver_LessThan :: "'v \<Rightarrow> 'v \<Rightarrow> bool"
  sort_Slice :: "('v \<Rightarrow> 'v \<Rightarrow> bool) \<Rightarrow> 'v list \<Rightarrow> 'v list"

text \<open>
  Lines 471-478: the two cuts that take the version text out of a title. \<open>None\<close> is
  the \<open>continue\<close> of the loop. The provider name is not an argument: the text between
  the two separators is dropped without being compared with anything.
\<close>

definition title_version :: "string \<Rightarrow> string option" where
  "title_version title =
     (case strings_Cut title ''Upgrade terraform-provider-'' of
        (_, nameToVersion, found) \<Rightarrow>
          if \<not> found then None
          else (case strings_Cut nameToVersion '' to '' of
                  (_, version, found2) \<Rightarrow> if \<not> found2 then None else Some version))"

text \<open>
  The shape of a title in words, to compare \<open>title_version\<close> with: \<open>s\<close> is cut at
  the first occurrence of \<open>sep\<close> into \<open>b\<close>, before it, and \<open>a\<close>, after it.
\<close>

definition cut_at_first :: "string \<Rightarrow> string \<Rightarrow> string \<Rightarrow> string \<Rightarrow> bool" where
  "cut_at_first s sep b a =
     (s = b @ sep @ a \<and> (\<forall>b' a'. s = b' @ sep @ a' \<longrightarrow> length b \<le> length b'))"

text \<open>Lines 469-483: the loop that collects the versions that parse.\<close>

fun getExpectedTarget_loop :: "(string \<Rightarrow> 'v option) \<Rightarrow> string list \<Rightarrow> 'v list \<Rightarrow> 'v list" where
  "getExpectedTarget_loop newVersion [] versions = versions"
| "getExpectedTarget_loop newVersion (title # rest) versions =
     (case title_version title of
        None \<Rightarrow> getExpectedTarget_loop newVersion rest versions
      | Some version \<Rightarrow>
          (case newVersion version of
             Some v \<Rightarrow> getExpectedTarget_loop newVersion rest (versions @ [v])
           | None \<Rightarrow> getExpectedTarget_loop newVersion rest versions))"

text \<open>
  \<open>versions[0]\<close> after the sort panics if the sorted slice is empty; a \<open>sort_Slice\<close>
  that keeps the elements never makes it so.
\<close>

definition getExpectedTarget :: "'v resolver \<Rightarrow> string \<Rightarrow> (error + 'v) go_result" where
  "getExpectedTarget d name =
     (case gh_Run d [''issue'', ''list'', ''--state=open'', ''--author=pulumi-bot'',
                     ''--repo=pulumi/'' @ name, ''--limit=100'', ''--json=title''] of
        Inl err \<Rightarrow> Returns (Inl err)
      | Inr bytes \<Rightarrow>
          (case json_Unmarshal d bytes of
             Inl err \<Rightarrow> Returns (Inl err)
           | Inr titles \<Rightarrow>
               (let versions = getExpectedTarget_loop (semver_NewVersion d) titles []
                in if length versions = 0 then Returns (Inl (errorString ''no upgrade found''))
                   else (case sort_Slice d (\<lambda>vi vj. semver_LessThan d vj vi) versions of
                           [] \<Rightarrow> Panics
                         | v # _ \<Rightarrow> Returns (Inr v)))))"

section \<open>The default branch\<close>








section \<open>The orchestrator and the top level\<close>

text \<open>
  \<open>step.RunJob\<close> belongs to package \<open>step\<close>, which main.go imports. \<open>UpgradeProvider\<close>
  reads of each job its boolean result and the variables its steps have assigned
  through the closures, so a run is given by the outcomes of its three jobs:
  \<^item> \<open>job_discover\<close>: the result of "Discovering Repository" and the value of \<open>goMod\<close>
    after it (nil when no step assigned it);
  \<^item> \<open>job_fork\<close>: the result of "Upgrading Forked Provider" and the value of
    \<open>forkedProviderUpstreamCommit\<close> after it;
  \<^item> \<open>job_upgrade\<close>: the result of "Upgrading Provider".
  The later jobs may depend on what the earlier ones left.
\<close>

record jobs =
  job_discover :: "bool \<times> GoMod option"
  job_fork :: "GoMod \<Rightarrow> bool \<times> string"
  job_upgrade :: "GoMod \<Rightarrow> string \<Rightarrow> bool"

text \<open>
  \<open>UpgradeProvider\<close> returns its error (\<open>None\<close> is nil) or panics, and the model also
  returns the jobs it has started, in order, each with its result. The panics are the
  dereference of a nil \<open>goMod\<close> at line 108, \<open>contract.Assert\<close> at line 225 and the
  dereference of a nil \<open>goMod.Fork\<close> at line 228, where the arguments of the command
  are built.
\<close>

definition UpgradeProvider :: "jobs \<Rightarrow> error option go_result \<times> (string \<times> bool) list" where
  "UpgradeProvider js =
     (case job_discover js of
        (ok, goMod) \<Rightarrow>
          (let log1 = [(''Discovering Repository'', ok)]
           in if \<not> ok then (Returns (Some ErrHandled), log1)
              else (case goMod of
                      None \<Rightarrow> (Panics, log1)
                    | Some gm \<Rightarrow>
                        (case (if IsForked (Kind gm)
                               then (case job_fork js gm of
                                       (ok2, c) \<Rightarrow>
                                         (ok2, c, log1 @ [(''Upgrading Forked Provider'', ok2)]))
                               else (True, [], log1)) of
                           (ok2, forkedProviderUpstreamCommit, log2) \<Rightarrow>
                             if \<not> ok2 then (Returns (Some ErrHandled), log2)
                             else if IsForked (Kind gm) \<and> forkedProviderUpstreamCommit = []
                             then (Panics, log2)
                             else if IsForked (Kind gm) \<and> Fork gm = None
                             then (Panics, log2)
                             else (let ok3 = job_upgrade js gm forkedProviderUpstreamCommit;
                                       log3 = log2 @ [(''Upgrading Provider'', ok3)]
                                   in if \<not> ok3 then (Returns (Some ErrHandled), log3)
                                      else (Returns None, log3))))))"

text \<open>
  Lines 50-56 of the \<open>Run\<close> function of \<open>cmd\<close>: what the process prints on standard
  output and how it ends, given the error of \<open>UpgradeProvider\<close>. \<open>Exit n\<close> is
  \<open>os.Exit(n)\<close>; \<open>RunReturns\<close> is \<open>Run\<close> returning, after which \<open>main\<close> returns and the
  process ends with status 0.
\<close>

datatype process_end = Exit int | RunReturns

definition cmd_Run_err :: "error option \<Rightarrow> string \<times> process_end" where
  "cmd_Run_err err =
     (case err of
        None \<Rightarrow> ([], RunReturns)
      | Some e \<Rightarrow>
          if errors_Is e ErrHandled then ([], Exit 1)
          else (''error: '' @ Error e @ [CHR 0x0A], Exit 1))"

definition cmd_Run :: "jobs \<Rightarrow> (string \<times> process_end) go_result" where
  "cmd_Run js =
     (case fst (UpgradeProvider js) of
        Panics \<Rightarrow> Panics
      | Returns err \<Rightarrow> Returns (cmd_Run_err err))"

section \<open>Concrete surroundings\<close>

text \<open>
  Instances of the parameters above, on which the functions are evaluated.
\<close>

definition require :: "string \<Rightarrow> string \<Rightarrow> modfile_Require" where
  "require p v = \<lparr>Mod = \<lparr>Path = p, Version = v\<rparr>, Indirect = False\<rparr>"

definition replace_by :: "string \<Rightarrow> string \<Rightarrow> string \<Rightarrow> modfile_Replace" where
  "replace_by old new v = \<lparr>Old = \<lparr>Path = old, Version = []\<rparr>, New = \<lparr>Path = new, Version = v\<rparr>\<rparr>"

text \<open>
  A file system that holds one repository at the path \<open>repo\<close>: its outer manifest, and
  a shim directory with a manifest of its own when \<open>shim\<close> gives one. The data of a
  file is its name, and the parser looks the manifest up by the name.
\<close>

definition simple_Join :: "string list \<Rightarrow> string" where
  "simple_Join parts = foldr (\<lambda>a b. if b = [] then a else a @ ''/'' @ b) parts []"

definition repo_world :: "modfile_File \<Rightarrow> modfile_File option \<Rightarrow> world" where
  "repo_world outer shim =
     \<lparr>filepath_Join = simple_Join,
      os_ReadFile = (\<lambda>f. Inr f),
      os_Stat = (\<lambda>d. case shim of
                        None \<Rightarrow> Some (errorString ''no such file or directory'')
                      | Some _ \<Rightarrow> None),
      os_IsNotExist = (\<lambda>e. e = errorString ''no such file or directory''),
      modfile_Parse = (\<lambda>file data.
        if file = ''repo/provider/go.mod'' then Inr outer
        else (case shim of
                None \<Rightarrow> Inl (errorString ''no manifest'')
              | Some sm \<Rightarrow>
                  if file = ''repo/provider/shim/go.mod'' then Inr sm
                  else Inl (errorString ''no manifest'')))\<rparr>"

text \<open>
  Versions of the form MAJOR.MINOR.PATCH in decimal digits, compared by major, then
  minor, then patch: the core of a semantic version, enough to evaluate the resolver.
\<close>

definition digits_nat :: "string \<Rightarrow> nat option" where
  "digits_nat s =
     (if s \<noteq> [] \<and> list_all (\<lambda>c. c \<in> set ''0123456789'') s
      then Some (foldl (\<lambda>n c. 10 * n + (of_char c - 48)) 0 s)
      else None)"

definition core_NewVersion :: "string \<Rightarrow> (nat \<times> nat \<times> nat) option" where
  "core_NewVersion s =
     (case strings_Split s (CHR ''.'') of
        [a, b, c] \<Rightarrow>
          (case (digits_nat a, digits_nat b, digits_nat c) of
             (Some x, Some y, Some z) \<Rightarrow> Some (x, y, z)
           | _ \<Rightarrow> None)
      | _ \<Rightarrow> None)"

fun core_LessThan :: "nat \<times> nat \<times> nat \<Rightarrow> nat \<times> nat \<times> nat \<Rightarrow> bool" where
  "core_LessThan (a, b, c) (a', b', c') =
     (a < a' \<or> (a = a' \<and> (b < b' \<or> (b = b' \<and> c < c'))))"

text \<open>A sort by insertion, for any comparison.\<close>

fun insert_by :: "('v \<Rightarrow> 'v \<Rightarrow> bool) \<Rightarrow> 'v \<Rightarrow> 'v list \<Rightarrow> 'v list" where
  "insert_by lt x [] = [x]"
| "insert_by lt x (y # ys) =
     (if lt x y then x # y # ys else y # insert_by lt x ys)"

definition insertion_sort :: "('v \<Rightarrow> 'v \<Rightarrow> bool) \<Rightarrow> 'v list \<Rightarrow> 'v list" where
  "insertion_sort lt xs = foldr (insert_by lt) xs []"

text \<open>
  A resolver whose issue tracker answers for the repository \<open>pulumi/name\<close> with the
  given titles.
\<close>

definition tracker :: "string \<Rightarrow> string list \<Rightarrow> (nat \<times> nat \<times> nat) resolver" where
  "tracker name titles =
     \<lparr>gh_Run = (\<lambda>args. if ''--repo=pulumi/'' @ name \<in> set args then Inr ''titles''
                       else Inl (errorString ''gh: repository not found'')),
      json_Unmarshal = (\<lambda>b. Inr titles),
      semver_NewVersion = core_NewVersion,
      semver_LessThan = core_LessThan,
      sort_Slice = insertion_sort\<rparr>"


text \<open>Manifests and job outcomes on which the theorems below are evaluated.\<close>

definition evil_extra :: modfile_File where
  "evil_extra =
     \<lparr>Require = [require ''github.com/hashicorp/terraform-provider-foo'' ''v1.0.0''],
      Replace = [replace_by ''github.com/hashicorp/terraform-provider-foo''
                   ''github.com/evil/terraform-provider-foo/extra'' ''v1.0.1'']\<rparr>"

definition evil_v2 :: modfile_File where
  "evil_v2 =
     \<lparr>Require = [require ''github.com/hashicorp/terraform-provider-foo'' ''v1.0.0''],
      Replace = [replace_by ''github.com/hashicorp/terraform-provider-foo''
                   ''github.com/evil/terraform-provider-foo/v2'' ''v2.0.1'']\<rparr>"

definition pulumi_v2 :: modfile_File where
  "pulumi_v2 =
     \<lparr>Require = [require ''github.com/hashicorp/terraform-provider-foo'' ''v1.0.0''],
      Replace = [replace_by ''github.com/hashicorp/terraform-provider-foo''
                   ''github.com/pulumi/terraform-provider-foo/v2'' ''v2.0.1'']\<rparr>"

text \<open>
  Two replace directives for the upstream, for two of its versions: the first points
  to the organisation pulumi, the second to the organisation evil.
\<close>

definition pulumi_then_evil :: modfile_File where
  "pulumi_then_evil =
     \<lparr>Require = [require ''github.com/hashicorp/terraform-provider-foo'' ''v1.1.0''],
      Replace =
        [\<lparr>Old = \<lparr>Path = ''github.com/hashicorp/terraform-provider-foo'', Version = ''v1.0.0''\<rparr>,
          New = \<lparr>Path = ''github.com/pulumi/terraform-provider-foo'', Version = ''v1.0.1''\<rparr>\<rparr>,
         \<lparr>Old = \<lparr>Path = ''github.com/hashicorp/terraform-provider-foo'', Version = ''v1.1.0''\<rparr>,
          New = \<lparr>Path = ''github.com/evil/terraform-provider-foo'', Version = ''v1.1.1''\<rparr>\<rparr>]\<rparr>"

definition two_upstreams :: modfile_File where
  "two_upstreams =
     \<lparr>Require = [require ''github.com/hashicorp/terraform-provider-foo'' ''v1.0.0'',
                 require ''github.com/other/terraform-provider-foo/v2'' ''v2.3.0''],
      Replace = []\<rparr>"

definition shim_outer :: modfile_File where
  "shim_outer =
     \<lparr>Require = [require ''github.com/hashicorp/terraform-provider-foo'' ''v1.0.0''],
      Replace = []\<rparr>"

definition shim_inner :: modfile_File where
  "shim_inner =
     \<lparr>Require = [require ''github.com/other/terraform-provider-foo/v3'' ''v3.0.0''],
      Replace = []\<rparr>"



definition issue_titles :: "string list" where
  "issue_titles =
     [''Upgrade terraform-provider-foo to 1.2.0'',
      ''Upgrade terraform-provider-foo to 1.3.0'',
      ''unrelated issue'',
      ''bump things to 9.9.9'']"

section \<open>Properties of RepoKind\<close>

lemmas RepoKind_defs = Plain_def Forked_def Shimmed_def ForkedAndShimmed_def

text \<open>
  Claim C10. The method \<open>Shimmed\<close> maps \<open>Plain\<close> to \<open>Shimmed\<close> and \<open>Forked\<close> to
  \<open>ForkedAndShimmed\<close>, leaves \<open>Shimmed\<close> and \<open>ForkedAndShimmed\<close> as they are, and is
  idempotent on every value of the type, the strings that are none of the four
  constants included.
\<close>

theorem RepoKind_Shimmed_idempotent:
  "RepoKind_Shimmed Plain = Shimmed \<and>
   RepoKind_Shimmed Forked = ForkedAndShimmed \<and>
   RepoKind_Shimmed Shimmed = Shimmed \<and>
   RepoKind_Shimmed ForkedAndShimmed = ForkedAndShimmed \<and>
   (\<forall>k. RepoKind_Shimmed (RepoKind_Shimmed k) = RepoKind_Shimmed k)"
  by (simp add: RepoKind_Shimmed_def RepoKind_defs)

section \<open>Properties of the version suffix\<close>

text \<open>
  What \<open>modPathWithoutVersion\<close> strips: a final \<open>/v\<close> with one or more digits after it,
  each of them from 2 to 9.
\<close>

lemma versionSuffix_here_inner: "\<not> versionSuffix_here (c # cs @ ''/v'' @ ds)"
  by (cases cs) (auto simp: versionSuffix_here_def class_2_9_def)

lemma versionSuffix_FindStringIndex_suffix:
  assumes "ds \<noteq> []" and "list_all class_2_9 ds"
  shows "versionSuffix_FindStringIndex (p @ ''/v'' @ ds) = Some (length p)"
proof (induction p)
  case Nil
  from assms show ?case by (simp add: versionSuffix_here_def)
next
  case (Cons c cs)
  then show ?case using versionSuffix_here_inner [of c cs ds] by simp
qed

lemma modPathWithoutVersion_strips:
  assumes "ds \<noteq> []" and "list_all class_2_9 ds"
  shows "modPathWithoutVersion (p @ ''/v'' @ ds) = p"
  using versionSuffix_FindStringIndex_suffix [OF assms, of p]
  by (simp add: modPathWithoutVersion_def)

text \<open>
  Claim C2. \<open>modPathWithoutVersion\<close> is to strip a final major version \<open>/vN\<close> with
  N at least 2, so that \<open>host/org/repo/v10\<close> becomes \<open>host/org/repo\<close>. The class
  \<open>[2-9]\<close> of the expression has neither 0 nor 1, so the suffix \<open>/v10\<close> is no match
  and the path comes back whole. The paths \<open>host/org/repo\<close> and \<open>host/org/repo/v1\<close>
  are unchanged, as the claim says, and \<open>/v2\<close> and \<open>/v22\<close> are stripped.
\<close>

theorem modPathWithoutVersion_v10_kept:
  "modPathWithoutVersion ''host/org/repo/v10'' = ''host/org/repo/v10'' \<and>
   modPathWithoutVersion ''host/org/repo'' = ''host/org/repo'' \<and>
   modPathWithoutVersion ''host/org/repo/v1'' = ''host/org/repo/v1'' \<and>
   modPathWithoutVersion ''host/org/repo/v2'' = ''host/org/repo'' \<and>
   modPathWithoutVersion ''host/org/repo/v22'' = ''host/org/repo''"
  by (simp add: modPathWithoutVersion_def versionSuffix_here_def class_2_9_def)

section \<open>Properties of the top level\<close>

text \<open>
  Claim C8. When the error of \<open>UpgradeProvider\<close> is \<open>ErrHandled\<close>, or wraps it (the test
  is \<open>errors.Is\<close>), the process prints nothing and exits with status 1. Every other
  error that is not nil is printed as \<open>error: \<close> and its message on a line, and the
  process exits with status 1; an error made by \<open>fmt.Errorf\<close> without \<open>%w\<close> is always
  such an error. With nil nothing is printed and \<open>Run\<close> returns.
\<close>

theorem cmd_Run_err_cases:
  "cmd_Run_err (Some ErrHandled) = ([], Exit 1) \<and>
   (\<forall>e. errors_Is e ErrHandled \<longrightarrow> cmd_Run_err (Some e) = ([], Exit 1)) \<and>
   (\<forall>e. \<not> errors_Is e ErrHandled \<longrightarrow>
        cmd_Run_err (Some e) = (''error: '' @ Error e @ [CHR 0x0A], Exit 1)) \<and>
   (\<forall>msg. \<not> errors_Is (errorString msg) ErrHandled) \<and>
   cmd_Run_err None = ([], RunReturns)"
  by (simp add: cmd_Run_err_def ErrHandled_def)

theorem cmd_Run_err_witness:
  "\<not> errors_Is (errorString ''boom'') ErrHandled \<and>
   cmd_Run_err (Some (errorString ''boom'')) = (''error: boom'' @ [CHR 0x0A], Exit 1) \<and>
   errors_Is (wrapError ''run: handled'' HandledError) ErrHandled \<and>
   cmd_Run_err (Some (wrapError ''run: handled'' HandledError)) = ([], Exit 1)"
  using cmd_Run_err_cases by (simp add: ErrHandled_def)

section \<open>Properties of the orchestrator\<close>



section \<open>Properties of the classifier\<close>

subsection \<open>Shared facts\<close>

lemmas classify_defs = repoKind_def repoKind_parsed_def repoKind_upstream_def repo_world_def
  simple_Join_def getUpstream_def require_def replace_by_def modPathWithoutVersion_def
  versionSuffix_here_def versionSuffix_MatchString_def class_2_9_def strings_HasSuffix_def
  strings_HasPrefix_def strings_Cut_def strings_LastIndexByte_def quoted_def
  RepoKind_Shimmed_def RepoKind_defs Let_def

lemma repoKind_parsed_Inr:
  assumes "repoKind_parsed w path providerName goMod = Inr out"
  shows "\<exists>upstream shimmed fork.
           repoKind_upstream w path (''terraform-provider-'' @ providerName) goMod
             = Inr (upstream, shimmed) \<and>
           repoKind_fork (''terraform-provider-'' @ providerName) upstream (Replace goMod)
             = Inr fork \<and>
           Upstream out = Mod upstream \<and> Fork out = fork \<and>
           Kind out = (if fork = None then (if shimmed then Shimmed else Plain)
                       else (if shimmed then ForkedAndShimmed else Forked))"
proof (cases "repoKind_upstream w path (''terraform-provider-'' @ providerName) goMod")
  case (Inl err)
  with assms show ?thesis by (simp add: repoKind_parsed_def)
next
  case (Inr us)
  obtain upstream shimmed where us: "us = (upstream, shimmed)" by (cases us)
  show ?thesis
  proof (cases "repoKind_fork (''terraform-provider-'' @ providerName) upstream (Replace goMod)")
    case (Inl err)
    with assms Inr us show ?thesis by (simp add: repoKind_parsed_def)
  next
    case fk: (Inr fork)
    from assms Inr us fk
    have "out = (if shimmed
                 then \<lparr>Kind = RepoKind_Shimmed (if fork = None then Plain else Forked),
                       Upstream = Mod upstream, Fork = fork\<rparr>
                 else \<lparr>Kind = (if fork = None then Plain else Forked),
                       Upstream = Mod upstream, Fork = fork\<rparr>)"
      by (cases shimmed; cases fork) (auto simp: repoKind_parsed_def Let_def)
    then have "Upstream out = Mod upstream" "Fork out = fork"
      "Kind out = (if fork = None then (if shimmed then Shimmed else Plain)
                       else (if shimmed then ForkedAndShimmed else Forked))"
      by (simp_all add: RepoKind_Shimmed_def RepoKind_defs)
    with Inr us fk show ?thesis by simp
  qed
qed

lemma repoKind_Inr:
  assumes "repoKind w path providerName = Inr out"
  shows "\<exists>data goMod.
           os_ReadFile w (filepath_Join w [path, ''provider'', ''go.mod'']) = Inr data \<and>
           modfile_Parse w (filepath_Join w [path, ''provider'', ''go.mod'']) data = Inr goMod \<and>
           repoKind_parsed w path providerName goMod = Inr out"
  using assms
  by (auto simp: repoKind_def Let_def split: sum.splits)

lemma first_match_Cons:
  "(\<exists>pre post. r # rs = pre @ m # post \<and> P m \<and> (\<forall>x \<in> set pre. \<not> P x)) =
     (if P r then r = m
      else (\<exists>pre post. rs = pre @ m # post \<and> P m \<and> (\<forall>x \<in> set pre. \<not> P x)))"
proof (cases "P r")
  case True
  then show ?thesis
    by (auto simp: Cons_eq_append_conv)
next
  case False
  then show ?thesis
    by (auto simp: Cons_eq_append_conv) (metis set_ConsD)+
qed

lemma getUpstream_loop_Inl:
  "(\<exists>err. getUpstream_loop tf rs = Inl err) =
     (\<forall>m \<in> set rs. \<not> strings_HasSuffix (modPathWithoutVersion (Path (Mod m))) tf)"
  by (induction rs) (auto simp: Let_def)

lemma getUpstream_loop_Inl_msg:
  "getUpstream_loop tf rs = Inl err \<Longrightarrow>
     err = errorString (''could not find upstream '' @ quoted tf @ '' in go.mod'')"
  by (induction rs) (auto simp: Let_def split: if_splits)

lemma getUpstream_loop_Inr:
  "(getUpstream_loop tf rs = Inr m) =
     (\<exists>pre post. rs = pre @ m # post \<and>
        strings_HasSuffix (modPathWithoutVersion (Path (Mod m))) tf \<and>
        (\<forall>x \<in> set pre. \<not> strings_HasSuffix (modPathWithoutVersion (Path (Mod x))) tf))"
proof (induction rs)
  case Nil
  then show ?case by simp
next
  case (Cons r rs)
  show ?case
    using Cons.IH
      first_match_Cons [of r rs m "\<lambda>m. strings_HasSuffix (modPathWithoutVersion (Path (Mod m))) tf"]
    by (simp add: Let_def)
qed

subsection \<open>The lookup of the upstream\<close>

text \<open>
  Claim C4, as the code has it. \<open>getUpstream\<close> fails exactly when no require entry has
  a path that, without its version suffix, ends with the repository name, and the
  error is then "could not find upstream". Otherwise it returns the first such entry
  in the order of the manifest: entries that match further down do not make the
  lookup fail and are not looked at.
\<close>

theorem getUpstream_first_match:
  "((\<exists>err. getUpstream tf file = Inl err) =
      (\<forall>m \<in> set (Require file). \<not> strings_HasSuffix (modPathWithoutVersion (Path (Mod m))) tf)) \<and>
   (\<forall>err. getUpstream tf file = Inl err \<longrightarrow>
      err = errorString (''could not find upstream '' @ quoted tf @ '' in go.mod'')) \<and>
   (\<forall>m. (getUpstream tf file = Inr m) =
      (\<exists>pre post. Require file = pre @ m # post \<and>
         strings_HasSuffix (modPathWithoutVersion (Path (Mod m))) tf \<and>
         (\<forall>x \<in> set pre. \<not> strings_HasSuffix (modPathWithoutVersion (Path (Mod x))) tf)))"
  unfolding getUpstream_def
  using getUpstream_loop_Inl [of tf "Require file"] getUpstream_loop_Inl_msg [of tf "Require file"]
    getUpstream_loop_Inr [of tf "Require file"]
  by blast

theorem getUpstream_first_match_witness:
  "getUpstream ''terraform-provider-foo'' two_upstreams
     = Inr (require ''github.com/hashicorp/terraform-provider-foo'' ''v1.0.0'')"
proof -
  let ?a = "require ''github.com/hashicorp/terraform-provider-foo'' ''v1.0.0''"
  let ?b = "require ''github.com/other/terraform-provider-foo/v2'' ''v2.3.0''"
  have "Require two_upstreams = [] @ ?a # [?b] \<and>
        strings_HasSuffix (modPathWithoutVersion (Path (Mod ?a))) ''terraform-provider-foo'' \<and>
        (\<forall>x \<in> set []. \<not> strings_HasSuffix (modPathWithoutVersion (Path (Mod x)))
                           ''terraform-provider-foo'')"
    by (simp add: two_upstreams_def require_def modPathWithoutVersion_def versionSuffix_here_def
          class_2_9_def strings_HasSuffix_def)
  then have "\<exists>pre post. Require two_upstreams = pre @ ?a # post \<and>
        strings_HasSuffix (modPathWithoutVersion (Path (Mod ?a))) ''terraform-provider-foo'' \<and>
        (\<forall>x \<in> set pre. \<not> strings_HasSuffix (modPathWithoutVersion (Path (Mod x)))
                           ''terraform-provider-foo'')"
    by blast
  with getUpstream_first_match [of "''terraform-provider-foo''" two_upstreams]
  show ?thesis by blast
qed

text \<open>
  The claim as it is written has the lookup fail on a manifest with two matching
  entries. On such a manifest \<open>getUpstream\<close> returns the first entry, and \<open>repoKind\<close>
  classifies the repository as plain with that entry as its upstream.
\<close>

theorem getUpstream_ambiguous_counterexample:
  "strings_HasSuffix (modPathWithoutVersion ''github.com/hashicorp/terraform-provider-foo'')
     ''terraform-provider-foo'' \<and>
   strings_HasSuffix (modPathWithoutVersion ''github.com/other/terraform-provider-foo/v2'')
     ''terraform-provider-foo'' \<and>
   getUpstream ''terraform-provider-foo'' two_upstreams
     = Inr (require ''github.com/hashicorp/terraform-provider-foo'' ''v1.0.0'') \<and>
   repoKind (repo_world two_upstreams None) ''repo'' ''foo''
     = Inr \<lparr>Kind = Plain,
            Upstream = \<lparr>Path = ''github.com/hashicorp/terraform-provider-foo'',
                        Version = ''v1.0.0''\<rparr>,
            Fork = None\<rparr>"
  by (simp add: classify_defs two_upstreams_def)

subsection \<open>The shim\<close>

lemma repoKind_upstream_shim:
  assumes "os_Stat w (filepath_Join w [path, ''provider'', ''shim'']) = None"
      and "repoKind_upstream w path tf goMod = Inr (upstream, shimmed)"
  shows "shimmed \<and>
         (\<exists>data shimMod.
            os_ReadFile w (filepath_Join w [filepath_Join w [path, ''provider'', ''shim''], ''go.mod''])
              = Inr data \<and>
            modfile_Parse w (filepath_Join w [filepath_Join w [path, ''provider'', ''shim''], ''go.mod''])
              data = Inr shimMod \<and>
            getUpstream tf shimMod = Inr upstream)"
  using assms
  by (auto simp: repoKind_upstream_def Let_def split: sum.splits)

lemma repoKind_upstream_outer_unused:
  assumes "os_Stat w (filepath_Join w [path, ''provider'', ''shim'']) = None"
  shows "repoKind_upstream w path tf goMod = repoKind_upstream w path tf goMod'"
  using assms by (simp add: repoKind_upstream_def Let_def)

text \<open>
  Claim C5. When \<open>os.Stat\<close> finds the shim directory, every result of \<open>repoKind\<close> has a
  shimmed kind (\<open>Shimmed\<close> or \<open>ForkedAndShimmed\<close>), and its \<open>Upstream\<close> is the entry that
  \<open>getUpstream\<close> finds in the manifest of the shim. The require entries of the outer
  manifest play no part: two outer manifests with the same replace directives are
  classified alike, whatever they require.
\<close>

theorem repoKind_shim:
  assumes stat: "os_Stat w (filepath_Join w [path, ''provider'', ''shim'']) = None"
  shows "(\<forall>out. repoKind w path providerName = Inr out \<longrightarrow>
            IsShimmed (Kind out) \<and> (Kind out = Shimmed \<or> Kind out = ForkedAndShimmed) \<and>
            (\<exists>data shimMod upstream.
               os_ReadFile w (filepath_Join w [filepath_Join w [path, ''provider'', ''shim''], ''go.mod''])
                 = Inr data \<and>
               modfile_Parse w (filepath_Join w [filepath_Join w [path, ''provider'', ''shim''], ''go.mod''])
                 data = Inr shimMod \<and>
               getUpstream (''terraform-provider-'' @ providerName) shimMod = Inr upstream \<and>
               Upstream out = Mod upstream)) \<and>
         (\<forall>goMod goMod'. Replace goMod = Replace goMod' \<longrightarrow>
            repoKind_parsed w path providerName goMod = repoKind_parsed w path providerName goMod')"
proof (intro conjI allI impI)
  fix out
  assume ok: "repoKind w path providerName = Inr out"
  then obtain goMod where "repoKind_parsed w path providerName goMod = Inr out"
    using repoKind_Inr by blast
  from repoKind_parsed_Inr [OF this] obtain upstream shimmed fork where
    up: "repoKind_upstream w path (''terraform-provider-'' @ providerName) goMod
           = Inr (upstream, shimmed)"
    and "repoKind_fork (''terraform-provider-'' @ providerName) upstream (Replace goMod) = Inr fork"
    and u: "Upstream out = Mod upstream"
    and "Fork out = fork"
    and k: "Kind out = (if fork = None then (if shimmed then Shimmed else Plain)
                       else (if shimmed then ForkedAndShimmed else Forked))"
    by (elim exE conjE)
  from repoKind_upstream_shim [OF stat up] have sh: shimmed
    and ex: "\<exists>data shimMod.
            os_ReadFile w (filepath_Join w [filepath_Join w [path, ''provider'', ''shim''], ''go.mod''])
              = Inr data \<and>
            modfile_Parse w (filepath_Join w [filepath_Join w [path, ''provider'', ''shim''], ''go.mod''])
              data = Inr shimMod \<and>
            getUpstream (''terraform-provider-'' @ providerName) shimMod = Inr upstream"
    by blast+
  from sh k show "IsShimmed (Kind out)" by (simp add: IsShimmed_def)
  from sh k show "Kind out = Shimmed \<or> Kind out = ForkedAndShimmed" by simp
  from ex u show "\<exists>data shimMod upstream.
               os_ReadFile w (filepath_Join w [filepath_Join w [path, ''provider'', ''shim''], ''go.mod''])
                 = Inr data \<and>
               modfile_Parse w (filepath_Join w [filepath_Join w [path, ''provider'', ''shim''], ''go.mod''])
                 data = Inr shimMod \<and>
               getUpstream (''terraform-provider-'' @ providerName) shimMod = Inr upstream \<and>
               Upstream out = Mod upstream" by blast
next
  fix goMod goMod' :: modfile_File
  assume "Replace goMod = Replace goMod'"
  then show "repoKind_parsed w path providerName goMod = repoKind_parsed w path providerName goMod'"
    using repoKind_upstream_outer_unused
            [OF stat, of "''terraform-provider-'' @ providerName" goMod goMod']
    by (simp add: repoKind_parsed_def Let_def split: sum.splits prod.splits)
qed

text \<open>
  The outer manifest requires the provider of hashicorp, the manifest of the shim the
  one of another organisation, at version 3: the upstream of the result is the latter.
\<close>

theorem repoKind_shim_witness:
  "os_Stat (repo_world shim_outer (Some shim_inner))
       (filepath_Join (repo_world shim_outer (Some shim_inner)) [''repo'', ''provider'', ''shim''])
     = None \<and>
   getUpstream ''terraform-provider-foo'' shim_outer
     = Inr (require ''github.com/hashicorp/terraform-provider-foo'' ''v1.0.0'') \<and>
   repoKind (repo_world shim_outer (Some shim_inner)) ''repo'' ''foo''
     = Inr \<lparr>Kind = Shimmed,
            Upstream = \<lparr>Path = ''github.com/other/terraform-provider-foo/v3'',
                        Version = ''v3.0.0''\<rparr>,
            Fork = None\<rparr> \<and>
   IsShimmed Shimmed"
proof -
  have s: "os_Stat (repo_world shim_outer (Some shim_inner))
       (filepath_Join (repo_world shim_outer (Some shim_inner)) [''repo'', ''provider'', ''shim''])
     = None"
    by (simp add: repo_world_def)
  have g: "getUpstream ''terraform-provider-foo'' shim_outer
     = Inr (require ''github.com/hashicorp/terraform-provider-foo'' ''v1.0.0'')"
    by (simp add: classify_defs shim_outer_def)
  have e: "repoKind (repo_world shim_outer (Some shim_inner)) ''repo'' ''foo''
     = Inr \<lparr>Kind = Shimmed,
            Upstream = \<lparr>Path = ''github.com/other/terraform-provider-foo/v3'',
                        Version = ''v3.0.0''\<rparr>,
            Fork = None\<rparr>"
    by (simp add: classify_defs shim_outer_def shim_inner_def)
  from repoKind_shim [OF s, of "''foo''"] e s g show ?thesis
    by simp
qed

subsection \<open>The fork\<close>

text \<open>
  Claim C6. In every result of \<open>repoKind\<close> the fork is present exactly when the kind is
  forked, and the kind is forked exactly when it is \<open>Forked\<close> or \<open>ForkedAndShimmed\<close>.
\<close>

theorem repoKind_fork_iff:
  assumes "repoKind w path providerName = Inr out"
  shows "(Fork out \<noteq> None) = IsForked (Kind out) \<and>
         IsForked (Kind out) = (Kind out = Forked \<or> Kind out = ForkedAndShimmed)"
proof -
  from assms obtain goMod where "repoKind_parsed w path providerName goMod = Inr out"
    using repoKind_Inr by blast
  from repoKind_parsed_Inr [OF this] obtain shimmed fork where
    f: "Fork out = fork"
    and k: "Kind out = (if fork = None then (if shimmed then Shimmed else Plain)
                       else (if shimmed then ForkedAndShimmed else Forked))"
    by blast
  show ?thesis
    by (cases shimmed; cases fork) (simp_all add: f k IsForked_def RepoKind_defs)
qed

theorem repoKind_fork_iff_witness:
  "repoKind (repo_world pulumi_v2 None) ''repo'' ''foo''
     = Inr \<lparr>Kind = Forked,
            Upstream = \<lparr>Path = ''github.com/hashicorp/terraform-provider-foo'',
                        Version = ''v1.0.0''\<rparr>,
            Fork = Some (replace_by ''github.com/hashicorp/terraform-provider-foo''
                           ''github.com/pulumi/terraform-provider-foo/v2'' ''v2.0.1'')\<rparr> \<and>
   IsForked Forked \<and>
   repoKind (repo_world shim_outer None) ''repo'' ''foo''
     = Inr \<lparr>Kind = Plain,
            Upstream = \<lparr>Path = ''github.com/hashicorp/terraform-provider-foo'',
                        Version = ''v1.0.0''\<rparr>,
            Fork = None\<rparr> \<and>
   \<not> IsForked Plain"
proof -
  have e: "repoKind (repo_world pulumi_v2 None) ''repo'' ''foo''
     = Inr \<lparr>Kind = Forked,
            Upstream = \<lparr>Path = ''github.com/hashicorp/terraform-provider-foo'',
                        Version = ''v1.0.0''\<rparr>,
            Fork = Some (replace_by ''github.com/hashicorp/terraform-provider-foo''
                           ''github.com/pulumi/terraform-provider-foo/v2'' ''v2.0.1'')\<rparr>"
    by (simp add: classify_defs pulumi_v2_def)
  have p: "repoKind (repo_world shim_outer None) ''repo'' ''foo''
     = Inr \<lparr>Kind = Plain,
            Upstream = \<lparr>Path = ''github.com/hashicorp/terraform-provider-foo'',
                        Version = ''v1.0.0''\<rparr>,
            Fork = None\<rparr>"
    by (simp add: classify_defs shim_outer_def)
  from repoKind_fork_iff [OF e] repoKind_fork_iff [OF p] e p show ?thesis
    by simp
qed

lemma repoKind_fork_skip:
  "\<forall>r \<in> set skipped. Path (Old r) \<noteq> Path (Mod upstream) \<Longrightarrow>
     repoKind_fork tf upstream (skipped @ rest) = repoKind_fork tf upstream rest"
  by (induction skipped) auto

text \<open>
  The organisation that \<open>repoKind\<close> reads off the text before the repository name is
  the last segment of that text: what follows its last slash, or all of it when it has
  no slash.
\<close>

lemma org_segment:
  "drop (nat (strings_LastIndexByte b c + 1)) b = rev (takeWhile (\<lambda>x. x \<noteq> c) (rev b))"
proof (cases "c \<in> set b")
  case False
  then have "takeWhile (\<lambda>x. x \<noteq> c) (rev b) = rev b"
    by (auto simp: takeWhile_eq_all_conv)
  then have "rev (takeWhile (\<lambda>x. x \<noteq> c) (rev b)) = b"
    by (simp only: rev_rev_ident)
  with False show ?thesis by (simp only: strings_LastIndexByte_def if_False) simp
next
  case True
  let ?tw = "takeWhile (\<lambda>x. x \<noteq> c) (rev b)"
  have "dropWhile (\<lambda>x. x \<noteq> c) (rev b) \<noteq> []"
    using True by (auto simp: dropWhile_eq_Nil_conv)
  moreover have "length (?tw @ dropWhile (\<lambda>x. x \<noteq> c) (rev b)) = length (rev b)"
    by (simp only: takeWhile_dropWhile_id)
  then have "length ?tw + length (dropWhile (\<lambda>x. x \<noteq> c) (rev b)) = length b"
    by (simp only: length_append length_rev)
  ultimately have lt: "length ?tw < length b"
    by (cases "dropWhile (\<lambda>x. x \<noteq> c) (rev b)") auto
  have "nat (strings_LastIndexByte b c + 1) = length b - length ?tw"
    using True lt by (simp add: strings_LastIndexByte_def)
  moreover have "drop (length b - length ?tw) b = rev (take (length ?tw) (rev b))"
    by (simp add: take_rev)
  moreover have "take (length ?tw) (rev b) = ?tw"
    by (metis takeWhile_eq_take)
  ultimately show ?thesis by simp
qed

lemma versionSuffix_FindStringIndex_last:
  "versionSuffix_FindStringIndex s = Some i \<Longrightarrow> class_2_9 (last s)"
proof (induction s arbitrary: i)
  case Nil
  then show ?case by simp
next
  case (Cons c cs)
  show ?case
  proof (cases "versionSuffix_here (c # cs)")
    case True
    then obtain ds where "c # cs = CHR ''/'' # CHR ''v'' # ds" and "ds \<noteq> []"
      and "list_all class_2_9 ds"
      by (auto simp: versionSuffix_here_def split: list.splits)
    then show ?thesis
      by (auto simp: list_all_iff)
  next
    case False
    with Cons.prems obtain j where j: "versionSuffix_FindStringIndex cs = Some j"
      by auto
    then have "cs \<noteq> []" by auto
    with Cons.IH [OF j] show ?thesis by simp
  qed
qed

lemma versionSuffix_MatchString_last:
  assumes "versionSuffix_MatchString s"
  shows "last s \<in> set ''0123456789''"
proof -
  from assms obtain i where "versionSuffix_FindStringIndex s = Some i"
    by (auto simp: versionSuffix_MatchString_def)
  then have "class_2_9 (last s)"
    by (rule versionSuffix_FindStringIndex_last)
  then show ?thesis
    by (auto simp: class_2_9_def)
qed

lemma versionSuffix_MatchString_digit:
  "c \<in> set ''23456789'' \<Longrightarrow> versionSuffix_MatchString (''/v'' @ [c])"
  by (simp add: versionSuffix_MatchString_def versionSuffix_here_def class_2_9_def)

text \<open>
  The error of the loop at the first directive that replaces the upstream, when its
  new path holds the repository name and the organisation before it is not pulumi.
\<close>

lemma repoKind_fork_untrusted:
  assumes sk: "\<forall>r \<in> set skipped. Path (Old r) \<noteq> Path (Mod upstream)"
    and ol: "Path (Old replace) = Path (Mod upstream)"
    and cut: "strings_Cut (Path (New replace)) (''/'' @ tf) = (before, after, True)"
    and org: "org = drop (nat (strings_LastIndexByte before (CHR ''/'') + 1)) before"
    and ne: "org \<noteq> ''pulumi''"
  shows "repoKind_fork tf upstream (skipped @ replace # rest) =
           Inl (if after = [] \<or> versionSuffix_MatchString after
                then errorString (''go.mod: tf fork maintained by '' @ quoted org @
                                  '': expected '' @ quoted ''pulumi'')
                else errorString (''go.mod: replace has incorrect repo: '' @
                                  quoted (Path (New replace))))"
  using ol cut org ne by (simp add: repoKind_fork_skip [OF sk] Let_def)

text \<open>
  Claim C1, as the code has it. Take a repository whose outer manifest is read and
  parsed and whose upstream is found, and the first replace directive whose old path
  is the path of the upstream. Let its new path hold the text \<open>/terraform-provider-\<close>
  and the provider name, let \<open>before\<close> and \<open>after\<close> be what stands before and after the
  first occurrence, and let \<open>org\<close>, the last segment of \<open>before\<close>, differ from pulumi.
  Then \<open>repoKind\<close> returns an error and no result. The error is "go.mod: tf fork
  maintained by 'org': expected 'pulumi'" when \<open>after\<close> is empty or is one of the
  major version suffixes \<open>/v2\<close> to \<open>/v9\<close>. When \<open>after\<close> is not empty and does not end
  in a digit, the check of the shape comes first and the error is "go.mod: replace
  has incorrect repo" with the new path.
\<close>

theorem repoKind_untrusted_fork:
  assumes rd: "os_ReadFile w (filepath_Join w [path, ''provider'', ''go.mod'']) = Inr data"
    and ps: "modfile_Parse w (filepath_Join w [path, ''provider'', ''go.mod'']) data = Inr goMod"
    and up: "repoKind_upstream w path (''terraform-provider-'' @ providerName) goMod
               = Inr (upstream, shimmed)"
    and sp: "Replace goMod = skipped @ replace # rest"
    and sk: "\<forall>r \<in> set skipped. Path (Old r) \<noteq> Path (Mod upstream)"
    and ol: "Path (Old replace) = Path (Mod upstream)"
    and cut: "strings_Cut (Path (New replace)) (''/terraform-provider-'' @ providerName)
               = (before, after, True)"
    and org: "org = drop (nat (strings_LastIndexByte before (CHR ''/'') + 1)) before"
    and ne: "org \<noteq> ''pulumi''"
  shows "(\<exists>err. repoKind w path providerName = Inl err) \<and>
         (after = [] \<or> (\<exists>c. c \<in> set ''23456789'' \<and> after = ''/v'' @ [c]) \<longrightarrow>
            repoKind w path providerName =
              Inl (errorString (''go.mod: tf fork maintained by '' @ quoted org @
                                '': expected '' @ quoted ''pulumi''))) \<and>
         (after \<noteq> [] \<and> last after \<notin> set ''0123456789'' \<longrightarrow>
            repoKind w path providerName =
              Inl (errorString (''go.mod: replace has incorrect repo: '' @
                                quoted (Path (New replace)))))"
proof -
  have c: "strings_Cut (Path (New replace)) (''/'' @ ''terraform-provider-'' @ providerName)
             = (before, after, True)"
    using cut by simp
  have r: "repoKind w path providerName =
           Inl (if after = [] \<or> versionSuffix_MatchString after
                then errorString (''go.mod: tf fork maintained by '' @ quoted org @
                                  '': expected '' @ quoted ''pulumi'')
                else errorString (''go.mod: replace has incorrect repo: '' @
                                  quoted (Path (New replace))))"
    using rd ps up repoKind_fork_untrusted [OF sk ol c org ne, of rest]
    by (simp add: repoKind_def repoKind_parsed_def Let_def sp)
  have 1: "\<exists>err. repoKind w path providerName = Inl err"
    using r by blast
  have 2: "repoKind w path providerName =
              Inl (errorString (''go.mod: tf fork maintained by '' @ quoted org @
                                '': expected '' @ quoted ''pulumi''))"
    if "after = [] \<or> (\<exists>c. c \<in> set ''23456789'' \<and> after = ''/v'' @ [c])"
  proof -
    from that have "after = [] \<or> versionSuffix_MatchString after"
      using versionSuffix_MatchString_digit by blast
    with r show ?thesis by (simp only: if_True)
  qed
  have 3: "repoKind w path providerName =
              Inl (errorString (''go.mod: replace has incorrect repo: '' @
                                quoted (Path (New replace))))"
    if "after \<noteq> [] \<and> last after \<notin> set ''0123456789''"
  proof -
    from that have "\<not> (after = [] \<or> versionSuffix_MatchString after)"
      using versionSuffix_MatchString_last by blast
    with r show ?thesis by (simp only: if_False)
  qed
  from 1 2 3 show ?thesis by blast
qed

text \<open>
  A fork of the organisation evil, at major version 2: the error names the organisation.
\<close>

theorem repoKind_untrusted_fork_witness:
  "repoKind (repo_world evil_v2 None) ''repo'' ''foo''
     = Inl (errorString (''go.mod: tf fork maintained by '' @ quoted ''evil'' @
                         '': expected '' @ quoted ''pulumi''))"
proof -
  let ?w = "repo_world evil_v2 None"
  let ?up = "require ''github.com/hashicorp/terraform-provider-foo'' ''v1.0.0''"
  let ?rp = "replace_by ''github.com/hashicorp/terraform-provider-foo''
                   ''github.com/evil/terraform-provider-foo/v2'' ''v2.0.1''"
  have rd: "os_ReadFile ?w (filepath_Join ?w [''repo'', ''provider'', ''go.mod''])
              = Inr ''repo/provider/go.mod''"
    by (simp add: repo_world_def simple_Join_def)
  have ps: "modfile_Parse ?w (filepath_Join ?w [''repo'', ''provider'', ''go.mod''])
              ''repo/provider/go.mod'' = Inr evil_v2"
    by (simp add: repo_world_def simple_Join_def)
  have up: "repoKind_upstream ?w ''repo'' (''terraform-provider-'' @ ''foo'') evil_v2
              = Inr (?up, False)"
    by (simp add: classify_defs evil_v2_def)
  have sp: "Replace evil_v2 = [] @ ?rp # []"
    by (simp add: evil_v2_def)
  have sk: "\<forall>r \<in> set []. Path (Old r) \<noteq> Path (Mod ?up)"
    by simp
  have ol: "Path (Old ?rp) = Path (Mod ?up)"
    by (simp add: require_def replace_by_def)
  have cut: "strings_Cut (Path (New ?rp)) (''/terraform-provider-'' @ ''foo'')
               = (''github.com/evil'', ''/v2'', True)"
    by (simp add: replace_by_def strings_Cut_def strings_HasPrefix_def)
  have org: "''evil'' = drop (nat (strings_LastIndexByte ''github.com/evil'' (CHR ''/'') + 1))
                            ''github.com/evil''"
    by (simp add: strings_LastIndexByte_def)
  have ne: "''evil'' \<noteq> ''pulumi''"
    by simp
  have v: "''/v2'' = [] \<or> (\<exists>c. c \<in> set ''23456789'' \<and> ''/v2'' = ''/v'' @ [c])"
    by simp
  from repoKind_untrusted_fork [OF rd ps up sp sk ol cut org ne, THEN conjunct2, THEN conjunct1]
  have "''/v2'' = [] \<or> (\<exists>c. c \<in> set ''23456789'' \<and> ''/v2'' = ''/v'' @ [c]) \<longrightarrow>
          repoKind ?w ''repo'' ''foo''
            = Inl (errorString (''go.mod: tf fork maintained by '' @ quoted ''evil'' @
                                '': expected '' @ quoted ''pulumi''))" .
  from this [rule_format, OF v] show ?thesis .
qed

text \<open>
  The claim as it is written fails in two ways. It gives the error "tf fork
  maintained by" to every new path whose segment before the repository name is not
  pulumi: in the new path \<open>github.com/evil/terraform-provider-foo/extra\<close> that segment
  is evil, and the error of \<open>repoKind\<close> is "replace has incorrect repo". And it has
  \<open>repoKind\<close> return an error for every manifest with such a directive: in
  \<open>pulumi_then_evil\<close> the second directive replaces the upstream by a repository of the
  organisation evil, and \<open>repoKind\<close> returns a result of kind \<open>Forked\<close>, with the first
  directive as its fork.
\<close>

theorem repoKind_untrusted_fork_counterexample:
  "strings_Cut ''github.com/evil/terraform-provider-foo/extra'' ''/terraform-provider-foo''
     = (''github.com/evil'', ''/extra'', True) \<and>
   drop (nat (strings_LastIndexByte ''github.com/evil'' (CHR ''/'') + 1)) ''github.com/evil''
     = ''evil'' \<and>
   repoKind (repo_world evil_extra None) ''repo'' ''foo''
     = Inl (errorString (''go.mod: replace has incorrect repo: '' @
                         quoted ''github.com/evil/terraform-provider-foo/extra'')) \<and>
   repoKind (repo_world evil_extra None) ''repo'' ''foo''
     \<noteq> Inl (errorString (''go.mod: tf fork maintained by '' @ quoted ''evil'' @
                         '': expected '' @ quoted ''pulumi'')) \<and>
   Path (Old (Replace pulumi_then_evil ! 1)) = ''github.com/hashicorp/terraform-provider-foo'' \<and>
   strings_Cut (Path (New (Replace pulumi_then_evil ! 1))) ''/terraform-provider-foo''
     = (''github.com/evil'', [], True) \<and>
   repoKind (repo_world pulumi_then_evil None) ''repo'' ''foo''
     = Inr \<lparr>Kind = Forked,
            Upstream = \<lparr>Path = ''github.com/hashicorp/terraform-provider-foo'',
                        Version = ''v1.1.0''\<rparr>,
            Fork = Some (Replace pulumi_then_evil ! 0)\<rparr>"
  by (simp add: classify_defs evil_extra_def pulumi_then_evil_def)

section \<open>Properties of the default branch\<close>




section \<open>Properties of the version resolver\<close>

subsection \<open>The titles\<close>

lemma getExpectedTarget_loop_eq:
  "getExpectedTarget_loop nv titles acc =
     acc @ List.map_filter (\<lambda>t. Option.bind (title_version t) nv) titles"
  by (induction titles arbitrary: acc) (auto simp: List.map_filter_simps split: option.splits)

lemma strings_Index_prefix: "strings_Index (sep @ rest) sep = Some 0"
proof (cases "sep @ rest")
  case Nil
  then show ?thesis by simp
next
  case (Cons c cs)
  have "strings_HasPrefix (sep @ rest) sep"
    by (simp add: strings_HasPrefix_def)
  then have "strings_Index (c # cs) sep = Some 0"
    by (simp add: Cons)
  then show ?thesis by (simp add: Cons)
qed

lemma strings_Cut_prefix: "strings_Cut (sep @ rest) sep = ([], rest, True)"
  by (simp add: strings_Cut_def strings_Index_prefix)

lemma strings_Index_after:
  "hd sep \<notin> set n \<Longrightarrow> sep \<noteq> [] \<Longrightarrow> strings_Index (n @ sep @ rest) sep = Some (length n)"
proof (induction n)
  case Nil
  then show ?case using strings_Index_prefix [of sep rest] by simp
next
  case (Cons c cs)
  then have "\<not> strings_HasPrefix (c # cs @ sep @ rest) sep"
    by (cases sep) (auto simp: strings_HasPrefix_def)
  with Cons show ?case by simp
qed

lemma strings_Cut_after:
  "hd sep \<notin> set n \<Longrightarrow> sep \<noteq> [] \<Longrightarrow> strings_Cut (n @ sep @ rest) sep = (n, rest, True)"
  by (simp add: strings_Cut_def strings_Index_after)

lemma strings_HasPrefix_iff: "strings_HasPrefix s sep = (\<exists>a. s = sep @ a)"
proof
  assume "strings_HasPrefix s sep"
  then have "s = sep @ drop (length sep) s"
    by (metis strings_HasPrefix_def append_take_drop_id)
  then show "\<exists>a. s = sep @ a" ..
next
  assume "\<exists>a. s = sep @ a"
  then show "strings_HasPrefix s sep"
    by (auto simp: strings_HasPrefix_def)
qed

lemma strings_Index_Some_occurs:
  "strings_Index s sep = Some i \<Longrightarrow> i \<le> length s \<and> (\<exists>a. drop i s = sep @ a)"
proof (induction s arbitrary: i)
  case Nil
  then show ?case by (auto split: if_splits)
next
  case (Cons c cs)
  show ?case
  proof (cases "strings_HasPrefix (c # cs) sep")
    case True
    with Cons.prems have "i = 0" by simp
    with True show ?thesis by (simp add: strings_HasPrefix_iff)
  next
    case False
    with Cons.prems obtain j where j: "strings_Index cs sep = Some j" and i: "i = Suc j"
      by auto
    from Cons.IH [OF j] i show ?thesis by simp
  qed
qed

lemma strings_Index_Some_least:
  "strings_Index s sep = Some i \<Longrightarrow> s = b' @ sep @ a' \<Longrightarrow> i \<le> length b'"
proof (induction s arbitrary: i b')
  case Nil
  then show ?case by (auto split: if_splits)
next
  case (Cons c cs)
  show ?case
  proof (cases "strings_HasPrefix (c # cs) sep")
    case True
    with Cons.prems(1) have "i = 0" by simp
    then show ?thesis by simp
  next
    case False
    with Cons.prems(1) obtain j where j: "strings_Index cs sep = Some j" and i: "i = Suc j"
      by auto
    from False Cons.prems(2) have "b' \<noteq> []"
      by (auto simp: strings_HasPrefix_iff)
    then obtain b'' where b: "b' = c # b''" and cs: "cs = b'' @ sep @ a'"
      using Cons.prems(2) by (cases b') auto
    from Cons.IH [OF j cs] i b show ?thesis by simp
  qed
qed

lemma strings_Index_None:
  "strings_Index s sep = None \<Longrightarrow> s \<noteq> b' @ sep @ a'"
proof (induction s arbitrary: b')
  case Nil
  then show ?case by (auto split: if_splits)
next
  case (Cons c cs)
  then have np: "\<not> strings_HasPrefix (c # cs) sep" and n: "strings_Index cs sep = None"
    by (auto split: if_splits)
  show ?case
  proof
    assume e: "c # cs = b' @ sep @ a'"
    with np have "b' \<noteq> []"
      by (auto simp: strings_HasPrefix_iff)
    with e obtain b'' where "cs = b'' @ sep @ a'"
      by (cases b') auto
    with Cons.IH [OF n] show False by blast
  qed
qed

lemma strings_Cut_found: "(strings_Cut s sep = (b, a, True)) = cut_at_first s sep b a"
proof
  assume c: "strings_Cut s sep = (b, a, True)"
  then obtain i where i: "strings_Index s sep = Some i"
    and b: "b = take i s" and a: "a = drop (i + length sep) s"
    by (auto simp: strings_Cut_def split: option.splits)
  from strings_Index_Some_occurs [OF i] obtain a' where le: "i \<le> length s"
    and d: "drop i s = sep @ a'"
    by blast
  have "a = drop (length sep) (drop i s)"
    using a by (simp add: add.commute)
  with d have "a = a'" by simp
  with d b have "s = b @ sep @ a"
    by (metis append_take_drop_id)
  moreover have "length b = i"
    using b le by simp
  ultimately show "cut_at_first s sep b a"
    using strings_Index_Some_least [OF i] by (auto simp: cut_at_first_def)
next
  assume c: "cut_at_first s sep b a"
  then have s: "s = b @ sep @ a"
    and least: "\<forall>b' a'. s = b' @ sep @ a' \<longrightarrow> length b \<le> length b'"
    by (auto simp: cut_at_first_def)
  from s strings_Index_None [of s sep b a] obtain i where i: "strings_Index s sep = Some i"
    by (cases "strings_Index s sep") auto
  from strings_Index_Some_least [OF i s] have 1: "i \<le> length b" .
  from strings_Index_Some_occurs [OF i] obtain a' where "drop i s = sep @ a'"
    by blast
  then have "s = take i s @ sep @ a'"
    by (metis append_take_drop_id)
  with least have "length b \<le> length (take i s)"
    by blast
  with 1 have il: "i = length b" by simp
  with s have "take i s = b" "drop (i + length sep) s = a"
    by simp_all
  with i show "strings_Cut s sep = (b, a, True)"
    by (simp add: strings_Cut_def)
qed

text \<open>
  \<open>title_version\<close> takes a title exactly when it holds \<open>Upgrade terraform-provider-\<close>
  and, after the first occurrence of it, the text \<open> to \<close>; the version text is
  then what follows the first \<open> to \<close>.
\<close>

lemma title_version_iff:
  "(title_version title = Some tok) =
     (\<exists>pre mid. cut_at_first title ''Upgrade terraform-provider-'' pre (mid @ '' to '' @ tok) \<and>
                 cut_at_first (mid @ '' to '' @ tok) '' to '' mid tok)"
proof
  assume t: "title_version title = Some tok"
  obtain b1 a1 f1 where c1: "strings_Cut title ''Upgrade terraform-provider-'' = (b1, a1, f1)"
    by (cases "strings_Cut title ''Upgrade terraform-provider-''") auto
  obtain b2 a2 f2 where c2: "strings_Cut a1 '' to '' = (b2, a2, f2)"
    by (cases "strings_Cut a1 '' to ''") auto
  from t c1 c2 have f1 and f2 and tok: "tok = a2"
    by (auto simp: title_version_def split: if_splits)
  with c1 c2 have k1: "cut_at_first title ''Upgrade terraform-provider-'' b1 a1"
    and k2: "cut_at_first a1 '' to '' b2 tok"
    by (simp_all add: strings_Cut_found)
  from k2 have "a1 = b2 @ '' to '' @ tok"
    by (simp add: cut_at_first_def)
  with k1 k2 show "\<exists>pre mid. cut_at_first title ''Upgrade terraform-provider-'' pre (mid @ '' to '' @ tok) \<and>
                 cut_at_first (mid @ '' to '' @ tok) '' to '' mid tok"
    by auto
next
  assume "\<exists>pre mid. cut_at_first title ''Upgrade terraform-provider-'' pre (mid @ '' to '' @ tok) \<and>
                 cut_at_first (mid @ '' to '' @ tok) '' to '' mid tok"
  then obtain pre mid where
    "strings_Cut title ''Upgrade terraform-provider-'' = (pre, mid @ '' to '' @ tok, True)"
    and "strings_Cut (mid @ '' to '' @ tok) '' to '' = (mid, tok, True)"
    by (auto simp: strings_Cut_found)
  then show "title_version title = Some tok"
    by (simp add: title_version_def)
qed

text \<open>
  A title of the literal shape is taken with whatever stands in the place of the
  provider name, as long as it has no space.
\<close>

lemma title_version_pattern:
  assumes "CHR '' '' \<notin> set n"
  shows "title_version (''Upgrade terraform-provider-'' @ n @ '' to '' @ tok) = Some tok"
proof -
  have "strings_Cut (''Upgrade terraform-provider-'' @ (n @ '' to '' @ tok))
          ''Upgrade terraform-provider-''
          = ([], n @ '' to '' @ tok, True)"
    by (rule strings_Cut_prefix)
  moreover have "strings_Cut (n @ '' to '' @ tok) '' to '' = (n, tok, True)"
    using assms by (intro strings_Cut_after) auto
  ultimately show ?thesis
    by (simp add: title_version_def)
qed

subsection \<open>The head of a sorted slice\<close>

lemma sorted_head_maximal:
  assumes m: "mset ss = mset vs" and s: "sorted_wrt (\<lambda>a b. \<not> lt a b) ss"
    and irr: "\<forall>v. \<not> lt v v" and ne: "vs \<noteq> []"
  shows "\<exists>v rest. ss = v # rest \<and> v \<in> set vs \<and> (\<forall>w \<in> set vs. \<not> lt v w)"
proof (cases ss)
  case Nil
  with m ne show ?thesis by simp
next
  case (Cons v rest)
  have eq: "set vs = set (v # rest)"
    using m Cons by (metis mset_eq_setD)
  have "\<forall>w \<in> set (v # rest). \<not> lt v w"
    using s Cons irr by auto
  with eq Cons show ?thesis by auto
qed

subsection \<open>The sort by insertion on the core versions\<close>

lemma core_LessThan_irrefl: "\<not> core_LessThan v v"
  by (cases v) auto

lemma core_LessThan_asym: "core_LessThan a b \<Longrightarrow> \<not> core_LessThan b a"
  by (cases a; cases b) auto

lemma core_LessThan_trans: "core_LessThan a b \<Longrightarrow> core_LessThan b c \<Longrightarrow> core_LessThan a c"
  by (cases a; cases b; cases c) auto

lemma mset_insert_by: "mset (insert_by lt x ys) = add_mset x (mset ys)"
  by (induction ys) auto

lemma mset_insertion_sort: "mset (insertion_sort lt xs) = mset xs"
  by (induction xs) (auto simp: insertion_sort_def mset_insert_by)

lemma set_insert_by: "set (insert_by lt x ys) = insert x (set ys)"
  by (induction ys) auto

lemma sorted_insert_by_core:
  "sorted_wrt (\<lambda>a b. \<not> core_LessThan a b) ys \<Longrightarrow>
     sorted_wrt (\<lambda>a b. \<not> core_LessThan a b) (insert_by (\<lambda>vi vj. core_LessThan vj vi) x ys)"
proof (induction ys)
  case Nil
  then show ?case by simp
next
  case (Cons y ys)
  show ?case
  proof (cases "core_LessThan y x")
    case True
    have "\<forall>z \<in> set ys. \<not> core_LessThan x z"
      using Cons.prems True core_LessThan_trans by fastforce
    with True Cons.prems show ?thesis
      using core_LessThan_asym by (auto simp del: core_LessThan.simps)
  next
    case False
    with Cons show ?thesis
      by (auto simp: set_insert_by simp del: core_LessThan.simps)
  qed
qed

lemma sorted_insertion_sort_core:
  "sorted_wrt (\<lambda>a b. \<not> core_LessThan a b) (insertion_sort (\<lambda>vi vj. core_LessThan vj vi) xs)"
  by (induction xs)
     (auto simp: insertion_sort_def intro: sorted_insert_by_core simp del: core_LessThan.simps)

lemmas resolve_defs = title_version_def strings_Cut_def strings_HasPrefix_def
  core_NewVersion_def digits_nat_def List.map_filter_simps

subsection \<open>The target version\<close>

text \<open>
  Claim C3, as the code has it. Let the query of the issue tracker and the decoding
  succeed with the titles \<open>titles\<close>, let \<open>LessThan\<close> hold of no version and itself, and
  let \<open>sort.Slice\<close> sort: its result has the elements of its argument, and no element
  is less than a later one under the comparison it is given. The titles that count are
  exactly those that hold \<open>Upgrade terraform-provider-\<close> and, after its first
  occurrence, the text \<open> to \<close>; the version text is what follows the first \<open> to \<close>;
  every other title is skipped. The provider name is not compared with anything, so
  the literal title for any name without a space is taken. Version texts that do not
  parse are skipped. With \<open>vs\<close> the versions that parse: \<open>getExpectedTarget\<close>
  fails with "no upgrade found" exactly when there is none; otherwise it returns one
  of them, and none of them is greater than it.
\<close>

theorem getExpectedTarget_maximum:
  assumes gh: "gh_Run d [''issue'', ''list'', ''--state=open'', ''--author=pulumi-bot'',
                         ''--repo=pulumi/'' @ name, ''--limit=100'', ''--json=title''] = Inr out"
      and js: "json_Unmarshal d out = Inr titles"
      and irr: "\<forall>v. \<not> semver_LessThan d v v"
      and srt: "\<forall>xs. mset (sort_Slice d (\<lambda>vi vj. semver_LessThan d vj vi) xs) = mset xs \<and>
                     sorted_wrt (\<lambda>a b. \<not> semver_LessThan d a b)
                       (sort_Slice d (\<lambda>vi vj. semver_LessThan d vj vi) xs)"
      and vs: "vs = List.map_filter (\<lambda>t. Option.bind (title_version t) (semver_NewVersion d)) titles"
  shows "(\<forall>title tok.
            (title_version title = Some tok) =
            (\<exists>pre mid.
               cut_at_first title ''Upgrade terraform-provider-'' pre (mid @ '' to '' @ tok) \<and>
               cut_at_first (mid @ '' to '' @ tok) '' to '' mid tok)) \<and>
         (vs = [] \<longrightarrow>
            getExpectedTarget d name = Returns (Inl (errorString ''no upgrade found''))) \<and>
         (vs \<noteq> [] \<longrightarrow>
            (\<exists>v \<in> set vs. getExpectedTarget d name = Returns (Inr v) \<and>
                           (\<forall>w \<in> set vs. \<not> semver_LessThan d v w))) \<and>
         ((getExpectedTarget d name = Returns (Inl (errorString ''no upgrade found'')))
            = (vs = [])) \<and>
         (\<forall>n tok. CHR '' '' \<notin> set n \<longrightarrow>
            title_version (''Upgrade terraform-provider-'' @ n @ '' to '' @ tok) = Some tok)"
proof -
  have none: "getExpectedTarget d name = Returns (Inl (errorString ''no upgrade found''))"
    if "vs = []"
    using that gh js vs by (simp add: getExpectedTarget_def getExpectedTarget_loop_eq)
  have some: "\<exists>v \<in> set vs. getExpectedTarget d name = Returns (Inr v) \<and>
                           (\<forall>w \<in> set vs. \<not> semver_LessThan d v w)"
    if ne: "vs \<noteq> []"
  proof -
    let ?sorted = "sort_Slice d (\<lambda>vi vj. semver_LessThan d vj vi) vs"
    from srt have "mset ?sorted = mset vs"
      and "sorted_wrt (\<lambda>a b. \<not> semver_LessThan d a b) ?sorted"
      by blast+
    from sorted_head_maximal [OF this irr ne] obtain v rest where
      hd: "?sorted = v # rest" and mem: "v \<in> set vs"
      and mx: "\<forall>w \<in> set vs. \<not> semver_LessThan d v w"
      by blast
    have "getExpectedTarget d name = Returns (Inr v)"
      using gh js vs ne hd by (simp add: getExpectedTarget_def getExpectedTarget_loop_eq)
    with mem mx show ?thesis
      by blast
  qed
  have iff: "(getExpectedTarget d name = Returns (Inl (errorString ''no upgrade found'')))
               = (vs = [])"
  proof (cases "vs = []")
    case True
    with none show ?thesis by simp
  next
    case False
    from some [OF False] obtain v where "getExpectedTarget d name = Returns (Inr v)"
      by blast
    with False show ?thesis by simp
  qed
  show ?thesis
    using title_version_iff none some iff title_version_pattern
    by (intro conjI allI impI)
qed

text \<open>
  The titles ask for 1.2.0 and for 1.3.0; a third title is unrelated, and a fourth
  names a version that parses, after \<open> to \<close>, without the text of an upgrade before
  it. The last two are skipped and the target is 1.3.0.
\<close>

theorem getExpectedTarget_maximum_witness:
  "title_version ''bump things to 9.9.9'' = None \<and>
   core_NewVersion ''9.9.9'' = Some (9, 9, 9) \<and>
   List.map_filter (\<lambda>t. Option.bind (title_version t) core_NewVersion) issue_titles
     = [(1, 2, 0), (1, 3, 0)] \<and>
   getExpectedTarget (tracker ''foo'' issue_titles) ''foo'' = Returns (Inr (1, 3, 0))"
proof -
  let ?d = "tracker ''foo'' issue_titles"
  have gh: "gh_Run ?d [''issue'', ''list'', ''--state=open'', ''--author=pulumi-bot'',
                       ''--repo=pulumi/'' @ ''foo'', ''--limit=100'', ''--json=title'']
              = Inr ''titles''"
    by (simp add: tracker_def)
  have js: "json_Unmarshal ?d ''titles'' = Inr issue_titles"
    by (simp add: tracker_def)
  have irr: "\<forall>v. \<not> semver_LessThan ?d v v"
    using core_LessThan_irrefl by (simp add: tracker_def del: core_LessThan.simps)
  have srt: "\<forall>xs. mset (sort_Slice ?d (\<lambda>vi vj. semver_LessThan ?d vj vi) xs) = mset xs \<and>
                  sorted_wrt (\<lambda>a b. \<not> semver_LessThan ?d a b)
                    (sort_Slice ?d (\<lambda>vi vj. semver_LessThan ?d vj vi) xs)"
    by (simp add: tracker_def mset_insertion_sort sorted_insertion_sort_core
             del: core_LessThan.simps)
  have t: "title_version ''bump things to 9.9.9'' = None"
    by (simp add: resolve_defs)
  have p: "core_NewVersion ''9.9.9'' = Some (9, 9, 9)"
    by (simp add: resolve_defs)
  have e: "List.map_filter (\<lambda>t. Option.bind (title_version t) core_NewVersion) issue_titles
             = [(1, 2, 0), (1, 3, 0)]"
    by (simp add: resolve_defs issue_titles_def)
  then have vs: "[(1, 2, 0), (1, 3, 0)]
             = List.map_filter (\<lambda>t. Option.bind (title_version t) (semver_NewVersion ?d))
                 issue_titles"
    by (simp add: tracker_def)
  have ne: "[(1, 2, 0), (1, 3, 0)] \<noteq> ([] :: (nat \<times> nat \<times> nat) list)"
    by simp
  from getExpectedTarget_maximum
         [OF gh js irr srt vs, THEN conjunct2, THEN conjunct2, THEN conjunct1]
  have "[(1, 2, 0), (1, 3, 0)] \<noteq> ([] :: (nat \<times> nat \<times> nat) list) \<longrightarrow>
        (\<exists>v \<in> set [(1, 2, 0), (1, 3, 0)].
          getExpectedTarget ?d ''foo'' = Returns (Inr v) \<and>
          (\<forall>w \<in> set [(1, 2, 0), (1, 3, 0)]. \<not> semver_LessThan ?d v w))" .
  from this [rule_format, OF ne]
  obtain v where r: "getExpectedTarget ?d ''foo'' = Returns (Inr v)"
    and v: "v = (1, 2, 0) \<or> v = (1, 3, 0)"
    and mx: "\<not> semver_LessThan ?d v (1, 3, 0)"
    by auto
  have "semver_LessThan ?d (1, 2, 0) (1, 3, 0)"
    by (simp add: tracker_def)
  with v mx have "v = (1, 3, 0)"
    by blast
  with r t p e show ?thesis
    by (intro conjI) simp_all
qed

text \<open>
  The claim as it is written counts only the titles for the requested provider. Asked
  for the provider pulumi-foo, with the single title of an upgrade of the provider
  bar, \<open>getExpectedTarget\<close> returns the version of that title instead of failing with
  "no upgrade found".
\<close>

theorem getExpectedTarget_other_name_counterexample:
  "getExpectedTarget (tracker ''pulumi-foo'' [''Upgrade terraform-provider-bar to 2.0.0''])
     ''pulumi-foo'' = Returns (Inr (2, 0, 0)) \<and>
   getExpectedTarget (tracker ''pulumi-foo'' [''Upgrade terraform-provider-bar to 2.0.0''])
     ''pulumi-foo'' \<noteq> Returns (Inl (errorString ''no upgrade found''))"
  by (simp add: getExpectedTarget_def tracker_def resolve_defs insertion_sort_def)

end
